theory Spec2Isabelle
  imports Main
begin

section \<open>The WhatsApp session: module-level state\<close>

text \<open>
  The server keeps the session in module-level variables (\<^verbatim>\<open>let client; let qrCodeData = null; ...\<close>).
  They are collected in one record, passed explicitly. \<^verbatim>\<open>clientState\<close> is a string in the
  source that only ever holds one of seven literals; it becomes a datatype.
\<close>

datatype client_state =
  Initializing | Qr | Authenticated | Ready | Disconnected | AuthFailure | Error

text \<open>\<^verbatim>\<open>client.info\<close>: only \<^verbatim>\<open>info.wid.user\<close> is read by the server.\<close>

record client_info =
  wid_user :: string

text \<open>
  The two callbacks the lifecycle code hands to \<^verbatim>\<open>setTimeout\<close>: the initialization
  watchdog (30 s) and the delayed call of \<^verbatim>\<open>startClient\<close> (5 s).
\<close>

datatype callback = InitWatchdog | RestartClient

record timer =
  timer_id :: nat
  timer_delay :: nat
  timer_cb :: callback

text \<open>Calls made on the library's client object, in the order they are made.\<close>

datatype client_op =
  NewClient nat | ClientInitialize nat | ClientDestroy nat | ClientLogout nat | RmSessionDir

record session =
  client :: "nat option"
  qrCodeData :: "string option"
  sessionPhone :: "string option"
  sessionInfo :: "client_info option"
  isInitializing :: bool
  reconnectAttempts :: nat
  qrGeneratedTime :: "int option"
  clientState :: client_state
  initializationTimeout :: "nat option"
  sessionRestoredOnce :: bool
  timers :: "timer list"
  next_timer :: nat
  constructed :: nat
  client_ops :: "client_op list"
  unhandled_rejections :: nat

text \<open>
  The last five fields are the runtime the code acts on: the pending \<^verbatim>\<open>setTimeout\<close>
  callbacks, the next timer handle, the number of \<^verbatim>\<open>new Client(...)\<close> objects built so far,
  the calls made on client objects, and the number of promises that were rejected with no
  handler attached (Node reports these as unhandled rejections).
\<close>

definition MAX_RECONNECT_ATTEMPTS :: nat where
  "MAX_RECONNECT_ATTEMPTS = 5"

definition QR_TIMEOUT :: int where
  "QR_TIMEOUT = 60000"

definition INITIALIZATION_TIMEOUT :: nat where
  "INITIALIZATION_TIMEOUT = 30000"

text \<open>The values of the variables when the module has been loaded, before \<^verbatim>\<open>startClient()\<close>.\<close>

definition module_state :: session where
  "module_state = \<lparr> client = None, qrCodeData = None, sessionPhone = None,
     sessionInfo = None, isInitializing = False, reconnectAttempts = 0,
     qrGeneratedTime = None, clientState = Initializing, initializationTimeout = None,
     sessionRestoredOnce = False, timers = [], next_timer = 0, constructed = 0,
     client_ops = [], unhandled_rejections = 0 \<rparr>"

subsection \<open>Timers\<close>

definition setTimeout :: "callback \<Rightarrow> nat \<Rightarrow> session \<Rightarrow> nat \<times> session" where
  "setTimeout cb ms s =
     (next_timer s,
      s\<lparr> timers := timers s @ [\<lparr> timer_id = next_timer s, timer_delay = ms, timer_cb = cb \<rparr>],
         next_timer := Suc (next_timer s) \<rparr>)"

definition clearTimeout :: "nat \<Rightarrow> session \<Rightarrow> session" where
  "clearTimeout h s = s\<lparr> timers := filter (\<lambda>t. timer_id t \<noteq> h) (timers s) \<rparr>"

text \<open>
  The block every handler starts with:
  \<^verbatim>\<open>if (initializationTimeout) { clearTimeout(initializationTimeout); initializationTimeout = null; }\<close>
\<close>

definition clear_initialization_timeout :: "session \<Rightarrow> session" where
  "clear_initialization_timeout s =
     (case initializationTimeout s of
        None \<Rightarrow> s
      | Some h \<Rightarrow> (clearTimeout h s)\<lparr> initializationTimeout := None \<rparr>)"

subsection \<open>startClient and the initialization watchdog\<close>

text \<open>
  What a call of \<^verbatim>\<open>client.logout()\<close> or \<^verbatim>\<open>client.destroy()\<close> can do: return (a promise that
  is fulfilled), throw before it returns, or return a promise that is rejected later. The
  server awaits both methods in \<^verbatim>\<open>POST /api/whatsapp/qr\<close>, so they return promises.
\<close>

datatype call_outcome = Returns | Throws | Rejects

text \<open>
  The watchdog's \<^verbatim>\<open>try { client.destroy(); } catch (error) { console.log(...) }\<close>. The
  call is not awaited: the \<^verbatim>\<open>catch\<close> sees an exception thrown by the call itself, and a
  promise rejected afterwards has no handler.
\<close>

definition try_destroy :: "call_outcome \<Rightarrow> session \<Rightarrow> session" where
  "try_destroy destroy_outcome s =
     (case client s of
        None \<Rightarrow> s
      | Some c \<Rightarrow>
          (let s1 = s\<lparr> client_ops := client_ops s @ [ClientDestroy c] \<rparr>
           in case destroy_outcome of
                Returns \<Rightarrow> s1
              | Throws \<Rightarrow> s1
              | Rejects \<Rightarrow> s1\<lparr> unhandled_rejections := Suc (unhandled_rejections s1) \<rparr>))"

text \<open>
  \<^verbatim>\<open>try { await client.logout(); } catch (error) { console.log(...) }\<close> and the same for
  \<^verbatim>\<open>destroy\<close>, as \<^verbatim>\<open>POST /api/whatsapp/qr\<close> writes them: with \<^verbatim>\<open>await\<close> inside the
  \<^verbatim>\<open>try\<close>, the \<^verbatim>\<open>catch\<close> receives the exception and the rejection alike.
\<close>

definition try_await :: "client_op \<Rightarrow> call_outcome \<Rightarrow> session \<Rightarrow> session" where
  "try_await op outcome s =
     (let s1 = s\<lparr> client_ops := client_ops s @ [op] \<rparr>
      in case outcome of Returns \<Rightarrow> s1 | Throws \<Rightarrow> s1 | Rejects \<Rightarrow> s1)"

text \<open>
  The callback of the initialization timeout. It does not reset \<^verbatim>\<open>initializationTimeout\<close>.
\<close>

definition initialization_timeout_fired :: "call_outcome \<Rightarrow> session \<Rightarrow> session" where
  "initialization_timeout_fired destroy_outcome s =
     (if clientState s = Initializing then
        snd (setTimeout RestartClient 5000
          (try_destroy destroy_outcome (s\<lparr> isInitializing := False, clientState := Error \<rparr>)))
      else s)"

text \<open>
  \<^verbatim>\<open>ctor_throws\<close> says whether \<^verbatim>\<open>new Client(...)\<close> throws inside the \<^verbatim>\<open>try\<close>; then the
  variable \<^verbatim>\<open>client\<close> keeps its old value and the \<^verbatim>\<open>catch\<close> block runs. The handlers
  registered with \<^verbatim>\<open>client.on\<close> are the functions of the next subsection.
\<close>

definition startClient :: "bool \<Rightarrow> session \<Rightarrow> session" where
  "startClient ctor_throws s =
     (if isInitializing s then s
      else
        let s1 = (if clientState s = Initializing \<and> \<not> isInitializing s
                  then s\<lparr> clientState := Disconnected \<rparr> else s);
            s2 = s1\<lparr> isInitializing := True, clientState := Initializing \<rparr>;
            (h, s3) = setTimeout InitWatchdog INITIALIZATION_TIMEOUT s2;
            s4 = s3\<lparr> initializationTimeout := Some h \<rparr>
        in if ctor_throws then
             (clear_initialization_timeout s4)\<lparr> isInitializing := False, clientState := Error \<rparr>
           else
             s4\<lparr> client := Some (constructed s4),
                 constructed := Suc (constructed s4),
                 client_ops := client_ops s4 @
                   [NewClient (constructed s4), ClientInitialize (constructed s4)] \<rparr>)"

subsection \<open>Event handlers\<close>

definition on_qr :: "int \<Rightarrow> string \<Rightarrow> session \<Rightarrow> session" where
  "on_qr now qr s =
     (clear_initialization_timeout s)\<lparr> qrCodeData := Some qr, qrGeneratedTime := Some now,
        sessionPhone := None, sessionInfo := None, reconnectAttempts := 0,
        clientState := Qr, isInitializing := False \<rparr>"

definition on_authenticated :: "session \<Rightarrow> session" where
  "on_authenticated s = (clear_initialization_timeout s)\<lparr> clientState := Authenticated \<rparr>"

text \<open>
  \<^verbatim>\<open>info\<close> is \<^verbatim>\<open>None\<close> when reading \<^verbatim>\<open>client.info\<close> or \<^verbatim>\<open>info.wid.user\<close> throws: the
  first assignment of the \<^verbatim>\<open>try\<close> block is the one that throws, so nothing of it has run.
\<close>

definition on_ready :: "client_info option \<Rightarrow> session \<Rightarrow> session" where
  "on_ready info s =
     (case info of
        Some i \<Rightarrow>
          (clear_initialization_timeout s)\<lparr> sessionPhone := Some (wid_user i),
             sessionInfo := Some i, reconnectAttempts := 0, isInitializing := False,
             clientState := Ready, qrCodeData := None, qrGeneratedTime := None,
             sessionRestoredOnce := False \<rparr>
      | None \<Rightarrow>
          (clear_initialization_timeout s)\<lparr> isInitializing := False, clientState := Error \<rparr>)"

definition on_disconnected :: "string \<Rightarrow> session \<Rightarrow> session" where
  "on_disconnected reason s =
     (let s1 = (clear_initialization_timeout s)\<lparr> qrCodeData := None, qrGeneratedTime := None,
                 sessionPhone := None, sessionInfo := None, isInitializing := False,
                 clientState := Disconnected \<rparr>
      in if reason \<noteq> ''NAVIGATION'' \<and> reconnectAttempts s1 < MAX_RECONNECT_ATTEMPTS then
           snd (setTimeout RestartClient 5000
                  (s1\<lparr> reconnectAttempts := Suc (reconnectAttempts s1) \<rparr>))
         else s1)"

definition on_auth_failure :: "session \<Rightarrow> session" where
  "on_auth_failure s =
     (clear_initialization_timeout s)\<lparr> isInitializing := False, clientState := AuthFailure,
        qrCodeData := None, qrGeneratedTime := None, sessionPhone := None,
        sessionInfo := None \<rparr>"

definition on_error :: "session \<Rightarrow> session" where
  "on_error s = (clear_initialization_timeout s)\<lparr> isInitializing := False, clientState := Error \<rparr>"

text \<open>The \<^verbatim>\<open>.catch\<close> on the promise of \<^verbatim>\<open>client.initialize()\<close>.\<close>

definition on_initialize_rejected :: "session \<Rightarrow> session" where
  "on_initialize_rejected s =
     (clear_initialization_timeout s)\<lparr> isInitializing := False, clientState := Error \<rparr>"

subsection \<open>The QR expiry sweep and the HTTP handlers that touch the session\<close>

text \<open>
  JavaScript truthiness of the two tested variables: a string is falsy when it is \<^verbatim>\<open>null\<close> or
  empty, a number when it is \<^verbatim>\<open>null\<close> or \<^verbatim>\<open>0\<close>.
\<close>

definition truthy_string :: "string option \<Rightarrow> bool" where
  "truthy_string v = (case v of None \<Rightarrow> False | Some x \<Rightarrow> x \<noteq> [])"

text \<open>\<^verbatim>\<open>qrGeneratedTime && (Date.now() - qrGeneratedTime) > QR_TIMEOUT\<close>\<close>

definition qr_expired :: "int \<Rightarrow> session \<Rightarrow> bool" where
  "qr_expired now s =
     (case qrGeneratedTime s of None \<Rightarrow> False | Some t \<Rightarrow> t \<noteq> 0 \<and> now - t > QR_TIMEOUT)"

text \<open>The callback of \<^verbatim>\<open>setInterval(..., 10000)\<close>.\<close>

definition QR_SWEEP_INTERVAL :: nat where
  "QR_SWEEP_INTERVAL = 10000"

definition qr_sweep :: "int \<Rightarrow> session \<Rightarrow> session" where
  "qr_sweep now s =
     (if truthy_string (qrCodeData s) \<and> qr_expired now s
      then s\<lparr> qrCodeData := None, qrGeneratedTime := None \<rparr> else s)"

datatype body = BodyQr string | BodyMessage string | BodyError string

type_synonym response = "nat \<times> body"

text \<open>
  \<^verbatim>\<open>GET /api/whatsapp/qr\<close>. \<^verbatim>\<open>toDataURL\<close> is the QR renderer; it returns \<^verbatim>\<open>None\<close> when the
  \<^verbatim>\<open>try\<close> block around it throws.
\<close>

definition get_qr ::
  "int \<Rightarrow> (string \<Rightarrow> string option) \<Rightarrow> bool \<Rightarrow> session \<Rightarrow> response \<times> session" where
  "get_qr now toDataURL ctor_throws s =
     (if clientState s = Qr \<and> truthy_string (qrCodeData s) then
        (if qr_expired now s then
           ((404, BodyError ''QR code expired''),
            s\<lparr> qrCodeData := None, qrGeneratedTime := None \<rparr>)
         else
           (case qrCodeData s of
              None \<Rightarrow> ((500, BodyError ''Failed to generate QR image''), s)
            | Some qr \<Rightarrow>
                (case toDataURL qr of
                   Some img \<Rightarrow> ((200, BodyQr img), s)
                 | None \<Rightarrow> ((500, BodyError ''Failed to generate QR image''), s))))
      else if clientState s = Ready then
        ((200, BodyMessage ''Client is already authenticated and ready.''), s)
      else if clientState s = Initializing \<or> isInitializing s then
        ((202, BodyMessage ''Client is initializing, please wait.''), s)
      else if (clientState s = Disconnected \<or> clientState s = AuthFailure \<or> clientState s = Error)
              \<and> \<not> isInitializing s then
        ((202, BodyMessage ''Client is reconnecting, please wait.''), startClient ctor_throws s)
      else ((404, BodyError ''No QR code available.''), s))"

text \<open>
  \<^verbatim>\<open>POST /api/whatsapp/qr\<close>, up to and including its call of \<^verbatim>\<open>startClient()\<close>. Both
  \<^verbatim>\<open>logout\<close> and \<^verbatim>\<open>destroy\<close> are called whether or not the other fails. The polling for the
  QR code that follows only reads the session and is not part of this function.
\<close>

definition post_qr_reset ::
  "call_outcome \<Rightarrow> call_outcome \<Rightarrow> bool \<Rightarrow> bool \<Rightarrow> session \<Rightarrow> session" where
  "post_qr_reset logout_outcome destroy_outcome dir_exists ctor_throws s =
     (let s1 = (case client s of
                  None \<Rightarrow> s
                | Some c \<Rightarrow>
                    try_await (ClientDestroy c) destroy_outcome
                      (try_await (ClientLogout c) logout_outcome s));
          s2 = s1\<lparr> qrCodeData := None, qrGeneratedTime := None, sessionPhone := None,
                  sessionInfo := None, isInitializing := False, clientState := Initializing \<rparr>;
          s3 = (if dir_exists then s2\<lparr> client_ops := client_ops s2 @ [RmSessionDir] \<rparr> else s2)
      in startClient ctor_throws (clear_initialization_timeout s3))"

subsection \<open>Runs of the session\<close>

text \<open>
  A pending timer fires: it leaves the pending list and its callback runs. A handle that is
  not pending (cleared, or fired before) does nothing.
\<close>

definition fire_timer :: "nat \<Rightarrow> bool \<Rightarrow> call_outcome \<Rightarrow> session \<Rightarrow> session" where
  "fire_timer h ctor_throws destroy_outcome s =
     (case find (\<lambda>t. timer_id t = h) (timers s) of
        None \<Rightarrow> s
      | Some t \<Rightarrow>
          (let s1 = s\<lparr> timers := filter (\<lambda>t. timer_id t \<noteq> h) (timers s) \<rparr>
           in case timer_cb t of
                InitWatchdog \<Rightarrow> initialization_timeout_fired destroy_outcome s1
              | RestartClient \<Rightarrow> startClient ctor_throws s1))"

datatype event =
    Startup bool
  | QrEvent int string
  | AuthenticatedEvent
  | ReadyEvent "client_info option"
  | DisconnectedEvent string
  | AuthFailureEvent
  | ErrorEvent
  | InitializeRejected
  | TimerFires nat bool call_outcome
  | QrSweep int
  | GetQr int "string \<Rightarrow> string option" bool
  | PostQr call_outcome call_outcome bool bool

fun step :: "event \<Rightarrow> session \<Rightarrow> session" where
  "step (Startup ctor_throws) s = startClient ctor_throws s"
| "step (QrEvent now qr) s = on_qr now qr s"
| "step AuthenticatedEvent s = on_authenticated s"
| "step (ReadyEvent info) s = on_ready info s"
| "step (DisconnectedEvent reason) s = on_disconnected reason s"
| "step AuthFailureEvent s = on_auth_failure s"
| "step ErrorEvent s = on_error s"
| "step InitializeRejected s = on_initialize_rejected s"
| "step (TimerFires h ctor_throws destroy_outcome) s = fire_timer h ctor_throws destroy_outcome s"
| "step (QrSweep now) s = qr_sweep now s"
| "step (GetQr now toDataURL ctor_throws) s = snd (get_qr now toDataURL ctor_throws s)"
| "step (PostQr logout_outcome destroy_outcome dir_exists ctor_throws) s =
     post_qr_reset logout_outcome destroy_outcome dir_exists ctor_throws s"

text \<open>The session after a sequence of events, the oldest first.\<close>

definition run :: "event list \<Rightarrow> session \<Rightarrow> session" where
  "run es s = fold step es s"

section \<open>Bulk e-mail: sendEmails and sendEmailsInBatches\<close>

text \<open>
  An element of the \<^verbatim>\<open>emails\<close> array, as \<^verbatim>\<open>extractEmailsFromExcel\<close> builds it.
\<close>

record email_data =
  email :: string
  row :: nat
  column :: string

record mail_options =
  mail_from :: string
  mail_to :: string
  mail_subject :: string
  mail_html :: string

text \<open>
  An entry of \<^verbatim>\<open>results\<close>: \<^verbatim>\<open>{email, status: 'success', messageId}\<close> or
  \<^verbatim>\<open>{email, status: 'failed', error}\<close>.
\<close>

datatype email_result =
    Success (result_email: string) string
  | Failed (result_email: string) string

text \<open>
  \<^verbatim>\<open>transporter.sendMail\<close> acts on the outside world \<open>'w\<close>: it returns the message id
  (\<open>Inr\<close>) or throws an error with a message (\<open>Inl\<close>), and what it does may depend on
  everything sent before.
\<close>

type_synonym 'w transport = "'w \<Rightarrow> mail_options \<Rightarrow> (string + string) \<times> 'w"

definition mailOptions :: "string \<Rightarrow> string \<Rightarrow> string \<Rightarrow> email_data \<Rightarrow> mail_options" where
  "mailOptions email_user subject body emailData =
     \<lparr> mail_from = ''\"Team Primecoz\" <'' @ email_user @ ''>'', mail_to = email emailData,
       mail_subject = subject, mail_html = body \<rparr>"

text \<open>The \<^verbatim>\<open>for (const emailData of emails)\<close> loop, with \<^verbatim>\<open>results\<close> as accumulator.\<close>

fun sendEmails_loop ::
  "'w transport \<Rightarrow> string \<Rightarrow> string \<Rightarrow> string \<Rightarrow> email_data list \<Rightarrow> email_result list \<Rightarrow> 'w
     \<Rightarrow> email_result list \<times> 'w" where
  "sendEmails_loop sendMail email_user subject body [] results w = (results, w)"
| "sendEmails_loop sendMail email_user subject body (emailData # rest) results w =
     (case sendMail w (mailOptions email_user subject body emailData) of
        (Inr messageId, w1) \<Rightarrow>
          sendEmails_loop sendMail email_user subject body rest
            (results @ [Success (email emailData) messageId]) w1
      | (Inl message, w1) \<Rightarrow>
          sendEmails_loop sendMail email_user subject body rest
            (results @ [Failed (email emailData) message]) w1)"

definition sendEmails ::
  "'w transport \<Rightarrow> string \<Rightarrow> string \<Rightarrow> string \<Rightarrow> email_data list \<Rightarrow> 'w
     \<Rightarrow> email_result list \<times> 'w" where
  "sendEmails sendMail email_user subject body emails w =
     sendEmails_loop sendMail email_user subject body emails [] w"

text \<open>
  What \<^verbatim>\<open>sendEmailsInBatches\<close> does besides sending, in order: a batch handed to
  \<^verbatim>\<open>sendEmails\<close>, or a wait of \<^verbatim>\<open>delayMs\<close> milliseconds.
\<close>

datatype dispatch_event = BatchSent "email_data list" | Waited nat

text \<open>
  \<^verbatim>\<open>for (let i = 0; i < emails.length; i += batchSize)\<close>. With \<^verbatim>\<open>batchSize = 0\<close> and a
  non-empty list the loop never ends, so the result is an option and \<open>None\<close> is not
  returning. \<^verbatim>\<open>emails.slice(i, i + batchSize)\<close> is \<open>take batchSize (drop i emails)\<close>.
\<close>

partial_function (option) sendEmailsInBatches_loop ::
  "'w transport \<Rightarrow> string \<Rightarrow> string \<Rightarrow> string \<Rightarrow> email_data list \<Rightarrow> nat \<Rightarrow> nat \<Rightarrow> nat
     \<Rightarrow> email_result list \<Rightarrow> dispatch_event list \<Rightarrow> 'w
     \<Rightarrow> (email_result list \<times> dispatch_event list \<times> 'w) option" where
  "sendEmailsInBatches_loop sendMail email_user subject body emails batchSize delayMs i
       allResults log w =
     (if i < length emails then
        (let batch = take batchSize (drop i emails);
             sent = sendEmails sendMail email_user subject body batch w;
             allResults1 = allResults @ fst sent;
             log1 = log @ [BatchSent batch];
             log2 = (if i + batchSize < length emails then log1 @ [Waited delayMs] else log1)
         in sendEmailsInBatches_loop sendMail email_user subject body emails batchSize delayMs
              (i + batchSize) allResults1 log2 (snd sent))
      else Some (allResults, log, w))"

definition sendEmailsInBatches ::
  "'w transport \<Rightarrow> string \<Rightarrow> string \<Rightarrow> string \<Rightarrow> email_data list \<Rightarrow> nat \<Rightarrow> nat \<Rightarrow> 'w
     \<Rightarrow> (email_result list \<times> dispatch_event list \<times> 'w) option" where
  "sendEmailsInBatches sendMail email_user subject body emails batchSize delayMs w =
     sendEmailsInBatches_loop sendMail email_user subject body emails batchSize delayMs 0 [] [] w"

text \<open>The batches and the waits of a log.\<close>

fun batches_of_log :: "dispatch_event list \<Rightarrow> email_data list list" where
  "batches_of_log [] = []"
| "batches_of_log (BatchSent b # evs) = b # batches_of_log evs"
| "batches_of_log (Waited d # evs) = batches_of_log evs"

fun waits_of_log :: "dispatch_event list \<Rightarrow> nat list" where
  "waits_of_log [] = []"
| "waits_of_log (BatchSent b # evs) = waits_of_log evs"
| "waits_of_log (Waited d # evs) = d # waits_of_log evs"

text \<open>
  The log the specification asks for: the batches in order, one wait between two
  neighbours and none after the last.
\<close>

fun delays_between :: "nat \<Rightarrow> email_data list list \<Rightarrow> dispatch_event list" where
  "delays_between d [] = []"
| "delays_between d [b] = [BatchSent b]"
| "delays_between d (b # b' # bs) = BatchSent b # Waited d # delays_between d (b' # bs)"

text \<open>
  The partition of the specification: contiguous batches of \<open>n\<close> recipients, the last one
  holding what is left.
\<close>

function contiguous_batches :: "nat \<Rightarrow> 'a list \<Rightarrow> 'a list list" where
  "contiguous_batches n xs =
     (if n = 0 \<or> xs = [] then [] else take n xs # contiguous_batches n (drop n xs))"
  by pat_completeness auto
termination
  by (relation "measure (\<lambda>(n, xs). length xs)") auto

declare contiguous_batches.simps [simp del]

section \<open>Bulk WhatsApp: POST /api/whatsapp/send\<close>

text \<open>
  The request body is parsed JSON, so \<^verbatim>\<open>contact.phone\<close> can be any JSON value, or
  \<^verbatim>\<open>undefined\<close> when the key is missing. Numbers are split into those with an integer value
  and the others; \<open>JObject\<close> is an object whose string form is \<^verbatim>\<open>[object Object]\<close>.
\<close>

datatype js_value =
    JUndefined
  | JNull
  | JBool bool
  | JInteger int
  | JFraction
  | JString string
  | JArray "js_value list"
  | JObject

record contact =
  name :: "string option"
  phone :: js_value

text \<open>
  An entry of \<^verbatim>\<open>results\<close>: \<^verbatim>\<open>{contact, success: true}\<close> or
  \<^verbatim>\<open>{contact, success: false, error}\<close>.
\<close>

datatype send_result =
    Sent (result_contact: contact)
  | NotSent (result_contact: contact) string

text \<open>
  The message is trimmed, and JavaScript's white space is defined on UTF-16 code units, so
  the message is a list of code units. The other strings are only compared with ASCII
  literals, tested against an ASCII pattern or concatenated.
\<close>

type_synonym code_units = "nat list"

definition ascii :: "string \<Rightarrow> code_units" where
  "ascii str = map of_char str"

text \<open>
  \<^verbatim>\<open>client.sendMessage(number, message)\<close> on the world \<open>'w\<close>: \<open>None\<close> when it resolves,
  \<open>Some\<close> of the error's message when it throws.
\<close>

type_synonym 'w messenger = "'w \<Rightarrow> string \<Rightarrow> code_units \<Rightarrow> string option \<times> 'w"

datatype send_event = SendMessage string code_units | Delay nat

text \<open>\<^verbatim>\<open>!v\<close> is the negation of this: the falsy values are \<^verbatim>\<open>undefined\<close>, \<^verbatim>\<open>null\<close>, \<^verbatim>\<open>false\<close>, \<^verbatim>\<open>0\<close> and \<^verbatim>\<open>''\<close>.\<close>

fun truthy :: "js_value \<Rightarrow> bool" where
  "truthy JUndefined = False"
| "truthy JNull = False"
| "truthy (JBool b) = b"
| "truthy (JInteger n) = (n \<noteq> 0)"
| "truthy JFraction = True"
| "truthy (JString p) = (p \<noteq> [])"
| "truthy (JArray vs) = True"
| "truthy JObject = True"

text \<open>In JavaScript \<^verbatim>\<open>\d\<close> is an ASCII digit and \<^verbatim>\<open>$\<close> is the end of the input.\<close>

definition is_digit :: "char \<Rightarrow> bool" where
  "is_digit c = (c \<in> set ''0123456789'')"

definition digits_10_15 :: "string \<Rightarrow> bool" where
  "digits_10_15 p = (10 \<le> length p \<and> length p \<le> 15 \<and> list_all is_digit p)"

text \<open>
  \<^verbatim>\<open>/^\d{10,15}$/.test(v)\<close>. \<^verbatim>\<open>test\<close> converts its argument to a string first. A number with
  an integer value below \<open>10\<^sup>2\<^sup>1\<close> becomes its decimal digits (with a sign when negative), so it
  matches when it has 10 to 15 digits; any other number has a point or an exponent in its
  string. \<^verbatim>\<open>undefined\<close>, \<^verbatim>\<open>null\<close>, \<^verbatim>\<open>true\<close>, \<^verbatim>\<open>false\<close> and \<^verbatim>\<open>[object Object]\<close> hold
  letters. An array becomes its elements' strings joined by commas, \<^verbatim>\<open>null\<close> elements
  giving the empty string: with one element it matches when the element does.
\<close>

fun test_digits_10_15 :: "js_value \<Rightarrow> bool" where
  "test_digits_10_15 (JString p) = digits_10_15 p"
| "test_digits_10_15 (JInteger n) = (1000000000 \<le> n \<and> n < 1000000000000000)"
| "test_digits_10_15 (JArray [v]) = test_digits_10_15 v"
| "test_digits_10_15 v = False"

text \<open>\<^verbatim>\<open>!contact.phone || !/^\d{10,15}$/.test(contact.phone)\<close>\<close>

definition invalid_phone :: "contact \<Rightarrow> bool" where
  "invalid_phone c = (\<not> truthy (phone c) \<or> \<not> test_digits_10_15 (phone c))"

text \<open>
  \<^verbatim>\<open>contact.phone.startsWith('91')\<close> is a method of strings only. On a number or an array the
  property is \<^verbatim>\<open>undefined\<close>, and calling it throws a \<^verbatim>\<open>TypeError\<close> with the message below.
\<close>

fun string_value :: "js_value \<Rightarrow> string option" where
  "string_value (JString p) = Some p"
| "string_value v = None"

definition startsWith_missing :: string where
  "startsWith_missing = ''contact.phone.startsWith is not a function''"

definition startsWith :: "string \<Rightarrow> string \<Rightarrow> bool" where
  "startsWith str pre = (take (length pre) str = pre)"

definition chat_id :: "string \<Rightarrow> string" where
  "chat_id p = (if \<not> startsWith p ''91'' then ''91'' @ p @ ''@c.us'' else p @ ''@c.us'')"

text \<open>
  The \<^verbatim>\<open>for (const contact of contacts)\<close> loop. The log records every call of
  \<^verbatim>\<open>client.sendMessage\<close> and every \<^verbatim>\<open>await delay(10000)\<close>; an invalid contact takes the
  \<^verbatim>\<open>continue\<close> and reaches neither. A contact that passes the check enters the \<^verbatim>\<open>try\<close>;
  whatever is thrown there, by \<^verbatim>\<open>startsWith\<close> or by \<^verbatim>\<open>sendMessage\<close>, is recorded by the
  \<^verbatim>\<open>catch\<close>, and the pause follows the \<^verbatim>\<open>try\<close> statement in either case.
\<close>

fun send_contacts_loop ::
  "'w messenger \<Rightarrow> code_units \<Rightarrow> contact list \<Rightarrow> send_result list \<Rightarrow> send_event list \<Rightarrow> 'w
     \<Rightarrow> send_result list \<times> send_event list \<times> 'w" where
  "send_contacts_loop sendMessage message [] results log w = (results, log, w)"
| "send_contacts_loop sendMessage message (c # rest) results log w =
     (if invalid_phone c then
        send_contacts_loop sendMessage message rest
          (results @ [NotSent c ''Invalid phone number format'']) log w
      else
        (case string_value (phone c) of
           None \<Rightarrow>
             send_contacts_loop sendMessage message rest
               (results @ [NotSent c startsWith_missing]) (log @ [Delay 10000]) w
         | Some p \<Rightarrow>
             (case sendMessage w (chat_id p) message of
                (None, w1) \<Rightarrow>
                  send_contacts_loop sendMessage message rest (results @ [Sent c])
                    (log @ [SendMessage (chat_id p) message, Delay 10000]) w1
              | (Some err, w1) \<Rightarrow>
                  send_contacts_loop sendMessage message rest (results @ [NotSent c err])
                    (log @ [SendMessage (chat_id p) message, Delay 10000]) w1)))"

text \<open>
  The request body: \<^verbatim>\<open>contacts\<close> is \<open>None\<close> when it is not an array, \<^verbatim>\<open>message\<close> is \<open>None\<close>
  when it is missing or not a string. \<^verbatim>\<open>message.trim() === ''\<close> holds when every code unit
  is one that \<^verbatim>\<open>trim\<close> strips: the white space and line terminators of ECMAScript.
\<close>

record send_request =
  contacts :: "contact list option"
  message :: "code_units option"

datatype send_response =
    Rejected nat string
  | Complete "send_result list"

definition is_space :: "nat \<Rightarrow> bool" where
  "is_space u =
     (u \<in> set [0x0009, 0x000A, 0x000B, 0x000C, 0x000D, 0x0020, 0x00A0, 0x1680,
               0x2000, 0x2001, 0x2002, 0x2003, 0x2004, 0x2005, 0x2006, 0x2007, 0x2008,
               0x2009, 0x200A, 0x2028, 0x2029, 0x202F, 0x205F, 0x3000, 0xFEFF])"

definition whatsapp_send ::
  "'w messenger \<Rightarrow> session \<Rightarrow> send_request \<Rightarrow> 'w \<Rightarrow> send_response \<times> send_event list \<times> 'w" where
  "whatsapp_send sendMessage s req w =
     (if client s = None \<or> sessionInfo s = None then
        (Rejected 400 ''No WhatsApp session'', [], w)
      else
        (case contacts req of
           None \<Rightarrow> (Rejected 400 ''No contacts provided'', [], w)
         | Some cs \<Rightarrow>
             (if cs = [] then (Rejected 400 ''No contacts provided'', [], w)
              else
                (case message req of
                   None \<Rightarrow> (Rejected 400 ''Message cannot be empty'', [], w)
                 | Some m \<Rightarrow>
                     (if m = [] \<or> list_all is_space m then
                        (Rejected 400 ''Message cannot be empty'', [], w)
                      else
                        (case send_contacts_loop sendMessage m cs [] [] w of
                           (results, log, w') \<Rightarrow> (Complete results, log, w')))))))"

section \<open>Vocabulary of the statements\<close>

text \<open>A response of \<^verbatim>\<open>GET /api/whatsapp/qr\<close> that carries a QR image.\<close>

definition serves_qr :: "response \<Rightarrow> bool" where
  "serves_qr r = (case snd r of BodyQr img \<Rightarrow> True | BodyMessage m \<Rightarrow> False | BodyError e \<Rightarrow> False)"


text \<open>The states entered by a handler that clears the session identity.\<close>

definition identity_cleared_state :: "client_state \<Rightarrow> bool" where
  "identity_cleared_state st = (st = Qr \<or> st = Disconnected \<or> st = AuthFailure)"

text \<open>The events whose handler assigns \<^verbatim>\<open>reconnectAttempts = 0\<close>.\<close>

fun resets_counter :: "event \<Rightarrow> bool" where
  "resets_counter (QrEvent now qr) = True"
| "resets_counter (ReadyEvent (Some i)) = True"
| "resets_counter e = False"

fun keeps_counter :: "event \<Rightarrow> bool" where
  "keeps_counter e = (\<not> resets_counter e)"

text \<open>A disconnect that the handler does not take for a manual logout.\<close>

fun automatic_disconnect :: "event \<Rightarrow> bool" where
  "automatic_disconnect (DisconnectedEvent reason) = (reason \<noteq> ''NAVIGATION'')"
| "automatic_disconnect e = False"

subsection \<open>Sample runs\<close>

text \<open>A first start that shows a QR code, is scanned and becomes ready.\<close>

definition scanned_and_ready :: "event list" where
  "scanned_and_ready =
     [Startup False, QrEvent 1000 ''2@a'', AuthenticatedEvent,
      ReadyEvent (Some \<lparr> wid_user = ''919876543210'' \<rparr>)]"

text \<open>
  Six disconnects, each retry of \<^verbatim>\<open>startClient\<close> (the pending 5 s timer firing) followed by
  a fresh QR code; no ready event anywhere.
\<close>

definition qr_between_disconnects :: "event list" where
  "qr_between_disconnects =
     [Startup False,
      QrEvent 1000 ''2@a'', DisconnectedEvent ''CONFLICT'', TimerFires 1 False Returns,
      QrEvent 2000 ''2@b'', DisconnectedEvent ''CONFLICT'', TimerFires 3 False Returns,
      QrEvent 3000 ''2@c'', DisconnectedEvent ''CONFLICT'', TimerFires 5 False Returns,
      QrEvent 4000 ''2@d'', DisconnectedEvent ''CONFLICT'', TimerFires 7 False Returns,
      QrEvent 5000 ''2@e'', DisconnectedEvent ''CONFLICT'', TimerFires 9 False Returns,
      QrEvent 6000 ''2@f'', DisconnectedEvent ''CONFLICT'']"

text \<open>Five disconnects with their retries and nothing else in between.\<close>

definition five_disconnects :: "event list" where
  "five_disconnects =
     [DisconnectedEvent ''CONFLICT'', TimerFires 1 False Returns,
      DisconnectedEvent ''CONFLICT'', TimerFires 3 False Returns,
      DisconnectedEvent ''CONFLICT'', TimerFires 5 False Returns,
      DisconnectedEvent ''CONFLICT'', TimerFires 7 False Returns,
      DisconnectedEvent ''CONFLICT'', TimerFires 9 False Returns]"

text \<open>A messenger that delivers everything; the world counts the calls.\<close>

definition accepting_messenger :: "nat messenger" where
  "accepting_messenger w number msg = (None, Suc w)"


text \<open>A mail transport that rejects one address and accepts the others.\<close>

definition rejecting_transport :: "string \<Rightarrow> nat transport" where
  "rejecting_transport bad w opts =
     (if mail_to opts = bad then (Inl ''550 mailbox unavailable'', Suc w)
      else (Inr (''id-'' @ mail_to opts), Suc w))"

definition recipient :: "string \<Rightarrow> email_data" where
  "recipient a = \<lparr> email = a, row = 1, column = ''Email'' \<rparr>"

section \<open>The session: frame lemmas and invariants\<close>

lemma cit_frame:
  "qrCodeData (clear_initialization_timeout s) = qrCodeData s"
  "qrGeneratedTime (clear_initialization_timeout s) = qrGeneratedTime s"
  "reconnectAttempts (clear_initialization_timeout s) = reconnectAttempts s"
  "clientState (clear_initialization_timeout s) = clientState s"
  "sessionInfo (clear_initialization_timeout s) = sessionInfo s"
  "sessionPhone (clear_initialization_timeout s) = sessionPhone s"
  "client (clear_initialization_timeout s) = client s"
  "isInitializing (clear_initialization_timeout s) = isInitializing s"
  "constructed (clear_initialization_timeout s) = constructed s"
  "client_ops (clear_initialization_timeout s) = client_ops s"
  "next_timer (clear_initialization_timeout s) = next_timer s"
  by (simp_all add: clear_initialization_timeout_def clearTimeout_def split: option.splits)

lemma startClient_frame:
  "qrCodeData (startClient c s) = qrCodeData s"
  "qrGeneratedTime (startClient c s) = qrGeneratedTime s"
  "reconnectAttempts (startClient c s) = reconnectAttempts s"
  "sessionInfo (startClient c s) = sessionInfo s"
  by (simp_all add: startClient_def setTimeout_def Let_def cit_frame)

lemma startClient_state:
  "clientState (startClient c s) =
     (if isInitializing s then clientState s else if c then Error else Initializing)"
  by (simp add: startClient_def setTimeout_def Let_def cit_frame)

lemma watchdog_frame:
  "qrCodeData (initialization_timeout_fired d s) = qrCodeData s"
  "qrGeneratedTime (initialization_timeout_fired d s) = qrGeneratedTime s"
  "reconnectAttempts (initialization_timeout_fired d s) = reconnectAttempts s"
  by (simp_all add: initialization_timeout_fired_def setTimeout_def try_destroy_def Let_def
        split: option.splits call_outcome.splits)

lemma watchdog_state:
  "clientState (initialization_timeout_fired d s) =
     (if clientState s = Initializing then Error else clientState s)"
  by (simp add: initialization_timeout_fired_def setTimeout_def try_destroy_def Let_def
        split: option.splits call_outcome.splits)

lemmas step_defs = on_qr_def on_authenticated_def on_ready_def on_disconnected_def
  on_auth_failure_def on_error_def on_initialize_rejected_def qr_sweep_def get_qr_def
  post_qr_reset_def try_await_def fire_timer_def setTimeout_def Let_def

lemma step_qr_time:
  assumes "qrCodeData s \<noteq> None \<longrightarrow> qrGeneratedTime s \<noteq> None"
  shows "qrCodeData (step e s) \<noteq> None \<longrightarrow> qrGeneratedTime (step e s) \<noteq> None"
  using assms
  by (cases e)
     (auto simp: step_defs cit_frame startClient_frame watchdog_frame
        split: option.splits callback.splits call_outcome.splits)

lemma run_qr_time:
  assumes "qrCodeData s \<noteq> None \<longrightarrow> qrGeneratedTime s \<noteq> None"
  shows "qrCodeData (run es s) \<noteq> None \<longrightarrow> qrGeneratedTime (run es s) \<noteq> None"
  using assms unfolding run_def
proof (induction es arbitrary: s)
  case Nil
  then show ?case by simp
next
  case (Cons e es)
  from step_qr_time [OF Cons.prems] show ?case
    using Cons.IH [of "step e s"] by simp
qed


lemma get_qr_expired:
  assumes "qrGeneratedTime s = Some t" "t \<noteq> 0" "60000 < now - t"
  shows "\<not> serves_qr (fst (get_qr now render c s))"
  using assms
  by (auto simp: get_qr_def serves_qr_def qr_expired_def QR_TIMEOUT_def split: option.splits)

lemma get_qr_lazy:
  assumes "qrGeneratedTime s = Some t" "t \<noteq> 0" "60000 < now - t"
    "clientState s = Qr" "truthy_string (qrCodeData s)"
  shows "get_qr now render c s = ((404, BodyError ''QR code expired''), s\<lparr> qrCodeData := None, qrGeneratedTime := None \<rparr>)"
  using assms
  by (simp add: get_qr_def qr_expired_def QR_TIMEOUT_def)

lemma sweep_expired:
  assumes "qrGeneratedTime s = Some t" "t \<noteq> 0" "60000 < now - t" "truthy_string (qrCodeData s)"
  shows "qr_sweep now s = s\<lparr> qrCodeData := None, qrGeneratedTime := None \<rparr>"
  using assms
  by (simp add: qr_sweep_def qr_expired_def QR_TIMEOUT_def)

lemma step_attempts_le:
  "reconnectAttempts s \<le> MAX_RECONNECT_ATTEMPTS \<Longrightarrow>
     reconnectAttempts (step e s) \<le> MAX_RECONNECT_ATTEMPTS"
  by (cases e)
     (auto simp: step_defs cit_frame startClient_frame watchdog_frame
        split: option.splits callback.splits call_outcome.splits)

lemma run_attempts_le:
  "reconnectAttempts s \<le> MAX_RECONNECT_ATTEMPTS \<Longrightarrow>
     reconnectAttempts (run es s) \<le> MAX_RECONNECT_ATTEMPTS"
  unfolding run_def by (induction es arbitrary: s) (simp_all add: step_attempts_le)

lemma step_attempts_mono:
  "\<not> resets_counter e \<Longrightarrow> reconnectAttempts s \<le> reconnectAttempts (step e s)"
  by (cases e rule: resets_counter.cases)
     (auto simp: step_defs cit_frame startClient_frame watchdog_frame
        split: option.splits callback.splits call_outcome.splits)

lemma step_attempts_disconnect:
  "automatic_disconnect e \<Longrightarrow>
     min MAX_RECONNECT_ATTEMPTS (Suc (reconnectAttempts s)) \<le> reconnectAttempts (step e s)"
  by (cases e) (auto simp: cit_frame on_disconnected_def setTimeout_def Let_def)

lemma run_attempts_count:
  "list_all keeps_counter es \<Longrightarrow>
     min MAX_RECONNECT_ATTEMPTS (reconnectAttempts s + length (filter automatic_disconnect es))
       \<le> reconnectAttempts (run es s)"
proof (induction es arbitrary: s)
  case Nil
  then show ?case by (simp add: run_def)
next
  case (Cons e es)
  have rest: "min MAX_RECONNECT_ATTEMPTS
                (reconnectAttempts (step e s) + length (filter automatic_disconnect es))
              \<le> reconnectAttempts (run es (step e s))"
    using Cons by simp
  have mono: "reconnectAttempts s \<le> reconnectAttempts (step e s)"
    using Cons.prems by (simp add: step_attempts_mono)
  show ?case
  proof (cases "automatic_disconnect e")
    case True
    from step_attempts_disconnect [OF True, of s] rest show ?thesis
      using True by (simp add: run_def min_def split: if_splits)
  next
    case False
    with mono rest show ?thesis
      by (simp add: run_def min_def split: if_splits)
  qed
qed


lemmas eval_defs = run_def module_state_def startClient_def on_qr_def on_authenticated_def
  on_ready_def on_disconnected_def on_auth_failure_def on_error_def on_initialize_rejected_def
  clear_initialization_timeout_def clearTimeout_def setTimeout_def
  initialization_timeout_fired_def try_destroy_def try_await_def post_qr_reset_def
  fire_timer_def INITIALIZATION_TIMEOUT_def
  MAX_RECONNECT_ATTEMPTS_def

section \<open>The e-mail dispatcher: lemmas\<close>

lemma sendEmails_loop_acc:
  "sendEmails_loop sm u sb bd es results w =
     (results @ fst (sendEmails_loop sm u sb bd es [] w), snd (sendEmails_loop sm u sb bd es [] w))"
proof (induction es arbitrary: results w)
  case Nil
  show ?case by simp
next
  case (Cons e es)
  obtain r w1 where r: "sm w (mailOptions u sb bd e) = (r, w1)"
    by (cases "sm w (mailOptions u sb bd e)")
  show ?case
  proof (cases r)
    case (Inl msg)
    show ?thesis
      using r Inl Cons.IH [of "results @ [Failed (email e) msg]" w1]
        Cons.IH [of "[Failed (email e) msg]" w1]
      by simp
  next
    case (Inr mid)
    show ?thesis
      using r Inr Cons.IH [of "results @ [Success (email e) mid]" w1]
        Cons.IH [of "[Success (email e) mid]" w1]
      by simp
  qed
qed

lemma sendEmails_Nil: "sendEmails sm u sb bd [] w = ([], w)"
  by (simp add: sendEmails_def)

lemma sendEmails_Cons_failed:
  assumes "sm w (mailOptions u sb bd e) = (Inl err, w1)"
  shows "sendEmails sm u sb bd (e # rest) w =
           (Failed (email e) err # fst (sendEmails sm u sb bd rest w1),
            snd (sendEmails sm u sb bd rest w1))"
  using assms sendEmails_loop_acc [of sm u sb bd rest "[Failed (email e) err]" w1]
  by (simp add: sendEmails_def)

lemma sendEmails_Cons_success:
  assumes "sm w (mailOptions u sb bd e) = (Inr mid, w1)"
  shows "sendEmails sm u sb bd (e # rest) w =
           (Success (email e) mid # fst (sendEmails sm u sb bd rest w1),
            snd (sendEmails sm u sb bd rest w1))"
  using assms sendEmails_loop_acc [of sm u sb bd rest "[Success (email e) mid]" w1]
  by (simp add: sendEmails_def)

lemma sendEmails_Cons_cases:
  obtains err w1 where "sm w (mailOptions u sb bd e) = (Inl err, w1)"
    | mid w1 where "sm w (mailOptions u sb bd e) = (Inr mid, w1)"
  by (cases "sm w (mailOptions u sb bd e)"; cases "fst (sm w (mailOptions u sb bd e))") auto



lemma sendEmails_append:
  "sendEmails sm u sb bd (xs @ ys) w =
     (fst (sendEmails sm u sb bd xs w) @ fst (sendEmails sm u sb bd ys (snd (sendEmails sm u sb bd xs w))),
      snd (sendEmails sm u sb bd ys (snd (sendEmails sm u sb bd xs w))))"
proof (induction xs arbitrary: w)
  case Nil
  show ?case by (simp add: sendEmails_Nil)
next
  case (Cons e xs)
  show ?case
    by (rule sendEmails_Cons_cases [of sm w u sb bd e])
       (simp_all add: sendEmails_Cons_failed sendEmails_Cons_success Cons.IH)
qed

lemma delays_between_Cons:
  "delays_between d (b # bs) = BatchSent b # (if bs = [] then [] else Waited d # delays_between d bs)"
  by (cases bs) simp_all

lemma contiguous_batches_empty_iff: "contiguous_batches n xs = [] \<longleftrightarrow> n = 0 \<or> xs = []"
  by (subst contiguous_batches.simps) simp

lemma contiguous_batches_Nil: "contiguous_batches n [] = []"
  by (subst contiguous_batches.simps) simp

lemma loop_result:
  assumes "1 \<le> n"
  shows "sendEmailsInBatches_loop sm u sb bd emails n d i allResults log w =
           Some (allResults @ fst (sendEmails sm u sb bd (drop i emails) w),
                 log @ delays_between d (contiguous_batches n (drop i emails)),
                 snd (sendEmails sm u sb bd (drop i emails) w))"
proof (induction "length emails - i" arbitrary: i allResults log w rule: less_induct)
  case less
  show ?case
  proof (cases "i < length emails")
    case False
    then show ?thesis
      by (subst sendEmailsInBatches_loop.simps)
         (simp add: sendEmails_Nil contiguous_batches_Nil)
  next
    case True
    let ?batch = "take n (drop i emails)"
    let ?sent = "sendEmails sm u sb bd ?batch w"
    have smaller: "length emails - (i + n) < length emails - i"
      using True assms by simp
    have split: "drop i emails = ?batch @ drop (i + n) emails"
      by (metis append_take_drop_id drop_drop add.commute)
    have whole: "sendEmails sm u sb bd (drop i emails) w =
        (fst ?sent @ fst (sendEmails sm u sb bd (drop (i + n) emails) (snd ?sent)),
         snd (sendEmails sm u sb bd (drop (i + n) emails) (snd ?sent)))"
      using sendEmails_append [of sm u sb bd ?batch "drop (i + n) emails" w] split by simp
    have batches: "contiguous_batches n (drop i emails) =
        ?batch # contiguous_batches n (drop (i + n) emails)"
      using True assms by (subst contiguous_batches.simps) (simp add: add.commute)
    have more: "contiguous_batches n (drop (i + n) emails) = [] \<longleftrightarrow> \<not> i + n < length emails"
      using assms by (auto simp: contiguous_batches_empty_iff)
    show ?thesis
      using True less [OF smaller] whole batches more
      by (subst sendEmailsInBatches_loop.simps) (simp add: Let_def delays_between_Cons contiguous_batches_Nil)
  qed
qed


lemma batches_of_delays: "batches_of_log (delays_between d bs) = bs"
  by (induction d bs rule: delays_between.induct) simp_all

lemma waits_of_delays: "waits_of_log (delays_between d bs) = replicate (length bs - 1) d"
  by (induction d bs rule: delays_between.induct) simp_all

lemma concat_contiguous_batches: "1 \<le> n \<Longrightarrow> concat (contiguous_batches n xs) = xs"
proof (induction n xs rule: contiguous_batches.induct)
  case (1 n xs)
  then show ?case
    by (subst contiguous_batches.simps) simp
qed

lemma contiguous_batches_sizes:
  "1 \<le> n \<Longrightarrow> map length (contiguous_batches n xs) =
     replicate (length xs div n) n @ (if length xs mod n = 0 then [] else [length xs mod n])"
proof (induction n xs rule: contiguous_batches.induct)
  case (1 n xs)
  show ?case
  proof (cases "xs = []")
    case True
    then show ?thesis by (simp add: contiguous_batches_Nil)
  next
    case False
    show ?thesis
    proof (cases "n \<le> length xs")
      case True
      have d: "length xs div n = Suc ((length xs - n) div n)"
        using True "1.prems" by (simp add: le_div_geq)
      have m: "length xs mod n = (length xs - n) mod n"
        using True by (simp add: le_mod_geq)
      show ?thesis
        using False True "1.prems" "1.IH" d m
        by (subst contiguous_batches.simps) (simp add: min_def)
    next
      case short: False
      then show ?thesis
        using False "1.prems"
        by (subst contiguous_batches.simps) (simp add: contiguous_batches_Nil min_def)
    qed
  qed
qed

lemma contiguous_batches_45:
  assumes "length emails = 45"
  shows "map length (contiguous_batches 20 emails) = [20, 20, 5]"
proof -
  have "(45::nat) div 20 = 2" "(45::nat) mod 20 = 5" by simp_all
  then show ?thesis
    using contiguous_batches_sizes [of 20 emails] assms by (simp add: numeral_2_eq_2)
qed

section \<open>The WhatsApp loop: lemmas\<close>

lemma send_contacts_loop_acc:
  "send_contacts_loop sm m cs results log w =
     (results @ fst (send_contacts_loop sm m cs [] [] w),
      log @ fst (snd (send_contacts_loop sm m cs [] [] w)),
      snd (snd (send_contacts_loop sm m cs [] [] w)))"
proof (induction cs arbitrary: results log w)
  case Nil
  show ?case by simp
next
  case (Cons c cs)
  show ?case
  proof (cases "invalid_phone c")
    case True
    then show ?thesis
      using Cons.IH [of "results @ [NotSent c ''Invalid phone number format'']" log w]
        Cons.IH [of "[NotSent c ''Invalid phone number format'']" "[]" w]
      by simp
  next
    case False
    show ?thesis
    proof (cases "string_value (phone c)")
      case None
      show ?thesis
        using False None
          Cons.IH [of "results @ [NotSent c startsWith_missing]" "log @ [Delay 10000]" w]
          Cons.IH [of "[NotSent c startsWith_missing]" "[Delay 10000]" w]
        by simp
    next
      case (Some p)
      obtain r w1 where r: "sm w (chat_id p) m = (r, w1)"
        by (cases "sm w (chat_id p) m")
      show ?thesis
      proof (cases r)
        case None
        show ?thesis
          using False Some r None
            Cons.IH [of "results @ [Sent c]" "log @ [SendMessage (chat_id p) m, Delay 10000]" w1]
            Cons.IH [of "[Sent c]" "[SendMessage (chat_id p) m, Delay 10000]" w1]
          by simp
      next
        case (Some err)
        show ?thesis
          using False \<open>string_value (phone c) = Some p\<close> r Some
            Cons.IH [of "results @ [NotSent c err]"
              "log @ [SendMessage (chat_id p) m, Delay 10000]" w1]
            Cons.IH [of "[NotSent c err]" "[SendMessage (chat_id p) m, Delay 10000]" w1]
          by simp
      qed
    qed
  qed
qed

lemma send_contacts_invalid:
  assumes "invalid_phone c"
  shows "send_contacts_loop sm m (c # rest) [] [] w =
           (NotSent c ''Invalid phone number format'' # fst (send_contacts_loop sm m rest [] [] w),
            fst (snd (send_contacts_loop sm m rest [] [] w)),
            snd (snd (send_contacts_loop sm m rest [] [] w)))"
  using assms
    send_contacts_loop_acc [of sm m rest "[NotSent c ''Invalid phone number format'']" "[]" w]
  by simp

lemma send_contacts_not_string:
  assumes "\<not> invalid_phone c" and "string_value (phone c) = None"
  shows "send_contacts_loop sm m (c # rest) [] [] w =
           (NotSent c startsWith_missing # fst (send_contacts_loop sm m rest [] [] w),
            Delay 10000 # fst (snd (send_contacts_loop sm m rest [] [] w)),
            snd (snd (send_contacts_loop sm m rest [] [] w)))"
  using assms
    send_contacts_loop_acc [of sm m rest "[NotSent c startsWith_missing]" "[Delay 10000]" w]
  by simp

lemma send_contacts_valid:
  assumes "\<not> invalid_phone c" and "phone c = JString p" and "sm w (chat_id p) m = (r, w1)"
  shows "send_contacts_loop sm m (c # rest) [] [] w =
           ((case r of None \<Rightarrow> Sent c | Some err \<Rightarrow> NotSent c err)
              # fst (send_contacts_loop sm m rest [] [] w1),
            SendMessage (chat_id p) m # Delay 10000 # fst (snd (send_contacts_loop sm m rest [] [] w1)),
            snd (snd (send_contacts_loop sm m rest [] [] w1)))"
  using assms
    send_contacts_loop_acc [of sm m rest "[Sent c]" "[SendMessage (chat_id p) m, Delay 10000]" w1]
    send_contacts_loop_acc [of sm m rest "[NotSent c (the r)]" "[SendMessage (chat_id p) m, Delay 10000]" w1]
  by (cases r) simp_all

lemma string_value_Some: "string_value v = Some p \<longleftrightarrow> v = JString p"
  by (cases v) auto

lemma send_contacts_cases:
  obtains "invalid_phone c"
  | "\<not> invalid_phone c" "string_value (phone c) = None"
  | p r w1 where "\<not> invalid_phone c" "phone c = JString p" "sm w (chat_id p) m = (r, w1)"
proof (cases "invalid_phone c")
  case True
  then show ?thesis by (rule that(1))
next
  case False
  show ?thesis
  proof (cases "string_value (phone c)")
    case None
    with False show ?thesis by (rule that(2))
  next
    case (Some p)
    then have p: "phone c = JString p" by (simp add: string_value_Some)
    obtain r w1 where "sm w (chat_id p) m = (r, w1)"
      by (cases "sm w (chat_id p) m")
    with False p show ?thesis by (rule that(3))
  qed
qed


lemma send_contacts_invalid_results:
  "filter (\<lambda>r. invalid_phone (result_contact r)) (fst (send_contacts_loop sm m cs [] [] w)) =
     map (\<lambda>c. NotSent c ''Invalid phone number format'') (filter invalid_phone cs)"
proof (induction cs arbitrary: w)
  case Nil
  show ?case by simp
next
  case (Cons c cs)
  show ?case
  proof (rule send_contacts_cases [where c = c and sm = sm and w = w and m = m])
    assume "invalid_phone c"
    then show ?thesis by (simp add: send_contacts_invalid Cons.IH del: send_contacts_loop.simps)
  next
    assume "\<not> invalid_phone c" "string_value (phone c) = None"
    then show ?thesis
      by (simp add: send_contacts_not_string Cons.IH del: send_contacts_loop.simps)
  next
    fix p r w1
    assume "\<not> invalid_phone c" "phone c = JString p" "sm w (chat_id p) m = (r, w1)"
    then show ?thesis
      by (simp add: send_contacts_valid Cons.IH del: send_contacts_loop.simps split: option.splits)
  qed
qed

text \<open>
  What the loop does to the outside: the calls of \<^verbatim>\<open>sendMessage\<close> and the pauses, and the
  world they leave. Only a contact that passes the check and whose phone is a string is sent
  to, at the chat id of its phone; the world is the one those calls produce, in order.
\<close>

lemma send_contacts_log:
  "fst (snd (send_contacts_loop sm m cs [] [] w)) =
     concat (map (\<lambda>c. case string_value (phone c) of
                         None \<Rightarrow> [Delay 10000]
                       | Some p \<Rightarrow> [SendMessage (chat_id p) m, Delay 10000])
               (filter (\<lambda>c. \<not> invalid_phone c) cs))"
proof (induction cs arbitrary: w)
  case Nil
  show ?case by simp
next
  case (Cons c cs)
  show ?case
  proof (rule send_contacts_cases [where c = c and sm = sm and w = w and m = m])
    assume "invalid_phone c"
    then show ?thesis by (simp add: send_contacts_invalid Cons.IH del: send_contacts_loop.simps)
  next
    assume "\<not> invalid_phone c" "string_value (phone c) = None"
    then show ?thesis
      by (simp add: send_contacts_not_string Cons.IH del: send_contacts_loop.simps)
  next
    fix p r w1
    assume "\<not> invalid_phone c" "phone c = JString p" "sm w (chat_id p) m = (r, w1)"
    then show ?thesis
      by (simp add: send_contacts_valid Cons.IH del: send_contacts_loop.simps)
  qed
qed

lemma send_contacts_world:
  "snd (snd (send_contacts_loop sm m cs [] [] w)) =
     fold (\<lambda>c v. case string_value (phone c) of
                    None \<Rightarrow> v
                  | Some p \<Rightarrow> snd (sm v (chat_id p) m))
       (filter (\<lambda>c. \<not> invalid_phone c) cs) w"
proof (induction cs arbitrary: w)
  case Nil
  show ?case by simp
next
  case (Cons c cs)
  show ?case
  proof (rule send_contacts_cases [where c = c and sm = sm and w = w and m = m])
    assume "invalid_phone c"
    then show ?thesis by (simp add: send_contacts_invalid Cons.IH del: send_contacts_loop.simps)
  next
    assume "\<not> invalid_phone c" "string_value (phone c) = None"
    then show ?thesis
      by (simp add: send_contacts_not_string Cons.IH del: send_contacts_loop.simps)
  next
    fix p r w1
    assume "\<not> invalid_phone c" "phone c = JString p" "sm w (chat_id p) m = (r, w1)"
    then show ?thesis
      by (simp add: send_contacts_valid Cons.IH del: send_contacts_loop.simps)
  qed
qed

lemma invalid_phone_string:
  "phone c = JString p \<Longrightarrow>
     invalid_phone c \<longleftrightarrow> \<not> (10 \<le> length p \<and> length p \<le> 15 \<and> list_all is_digit p)"
  by (auto simp: invalid_phone_def digits_10_15_def)

lemma chat_id_91:
  "chat_id p = (if take 2 p = ''91'' then p @ ''@c.us'' else ''91'' @ p @ ''@c.us'')"
  by (simp add: chat_id_def startsWith_def numeral_2_eq_2)

section \<open>Where the send is rejected\<close>

lemma watchdog_identity:
  "sessionInfo (initialization_timeout_fired d s) = sessionInfo s"
  by (simp add: initialization_timeout_fired_def setTimeout_def try_destroy_def Let_def
        split: option.splits call_outcome.splits)

lemma step_identity_cleared:
  assumes "identity_cleared_state (clientState s) \<longrightarrow> sessionInfo s = None"
  shows "identity_cleared_state (clientState (step e s)) \<longrightarrow> sessionInfo (step e s) = None"
  using assms
  by (cases e)
     (auto simp: step_defs cit_frame startClient_frame watchdog_identity startClient_state
        watchdog_state identity_cleared_state_def
        split: option.splits callback.splits call_outcome.splits if_splits)

lemma run_identity_cleared:
  assumes "identity_cleared_state (clientState s) \<longrightarrow> sessionInfo s = None"
  shows "identity_cleared_state (clientState (run es s)) \<longrightarrow> sessionInfo (run es s) = None"
  using assms unfolding run_def
proof (induction es arbitrary: s)
  case Nil
  then show ?case by simp
next
  case (Cons e es)
  from step_identity_cleared [OF Cons.prems] show ?case
    using Cons.IH [of "step e s"] by simp
qed

text \<open>
  In every state the session reaches, a request that arrives while the state is \<^verbatim>\<open>'qr'\<close>,
  \<^verbatim>\<open>'disconnected'\<close> or \<^verbatim>\<open>'auth_failure'\<close> is rejected and sends nothing: the handlers that
  enter these states clear the identity the guard reads.
\<close>

lemma send_rejected_where_identity_cleared:
  assumes "identity_cleared_state (clientState (run es module_state))"
  shows "whatsapp_send sendMessage (run es module_state) req w
           = (Rejected 400 ''No WhatsApp session'', [], w)"
proof -
  have "sessionInfo (run es module_state) = None"
    using run_identity_cleared [of module_state es] assms by (simp add: module_state_def)
  then show ?thesis by (simp add: whatsapp_send_def)
qed

section \<open>The claims about the session\<close>

text \<open>
  C1, at the input where the code departs from it: a session that is ready holds the
  identity of the account; the handler of the \<^verbatim>\<open>error\<close> event then sets the state to
  \<^verbatim>\<open>'error'\<close> and assigns neither \<^verbatim>\<open>sessionPhone\<close> nor \<^verbatim>\<open>sessionInfo\<close>, which the handlers of
  \<^verbatim>\<open>disconnected\<close> and \<^verbatim>\<open>auth_failure\<close> both set to \<^verbatim>\<open>null\<close>.
\<close>

theorem error_event_keeps_identity:
  "clientState (run scanned_and_ready module_state) = Ready \<and>
   sessionInfo (run scanned_and_ready module_state) = Some \<lparr> wid_user = ''919876543210'' \<rparr> \<and>
   clientState (on_error (run scanned_and_ready module_state)) = Error \<and>
   sessionInfo (on_error (run scanned_and_ready module_state))
     = Some \<lparr> wid_user = ''919876543210'' \<rparr> \<and>
   sessionPhone (on_error (run scanned_and_ready module_state)) = Some ''919876543210'' \<and>
   sessionInfo (on_disconnected ''CONFLICT'' (run scanned_and_ready module_state)) = None \<and>
   sessionInfo (on_auth_failure (run scanned_and_ready module_state)) = None"
  by (simp add: scanned_and_ready_def eval_defs Let_def)

text \<open>
  C2, at the input where the code departs from it: a ready session receives the \<^verbatim>\<open>error\<close>
  event, whose handler leaves \<^verbatim>\<open>sessionInfo\<close> in place (the defect of C1). The state is then
  \<^verbatim>\<open>'error'\<close>, yet the guard of \<^verbatim>\<open>POST /api/whatsapp/send\<close>, which reads \<^verbatim>\<open>client\<close> and
  \<^verbatim>\<open>sessionInfo\<close>, lets the request through and the message is sent. The same request is
  rejected after a \<^verbatim>\<open>disconnected\<close> event, whose handler clears the identity.
\<close>

theorem send_accepted_in_error_state:
  "clientState (run (scanned_and_ready @ [ErrorEvent]) module_state) = Error \<and>
   whatsapp_send accepting_messenger (run (scanned_and_ready @ [ErrorEvent]) module_state)
       \<lparr> contacts = Some [\<lparr> name = Some ''Asha'', phone = JString ''9876543210'' \<rparr>],
         message = Some (ascii ''hello'') \<rparr> 0
     = (Complete [Sent \<lparr> name = Some ''Asha'', phone = JString ''9876543210'' \<rparr>],
        [SendMessage ''919876543210@c.us'' (ascii ''hello''), Delay 10000], 1) \<and>
   clientState (run (scanned_and_ready @ [DisconnectedEvent ''NAVIGATION'']) module_state)
     = Disconnected \<and>
   whatsapp_send accepting_messenger
       (run (scanned_and_ready @ [DisconnectedEvent ''NAVIGATION'']) module_state)
       \<lparr> contacts = Some [\<lparr> name = Some ''Asha'', phone = JString ''9876543210'' \<rparr>],
         message = Some (ascii ''hello'') \<rparr> 0
     = (Rejected 400 ''No WhatsApp session'', [], 0)"
proof -
  have msg: "ascii ''hello'' \<noteq> []" "\<not> list_all is_space (ascii ''hello'')"
    by (simp_all add: ascii_def is_space_def)
  show ?thesis
    using msg
    by (simp add: scanned_and_ready_def eval_defs Let_def whatsapp_send_def
          accepting_messenger_def invalid_phone_def digits_10_15_def is_digit_def chat_id_def
          startsWith_def)
qed




text \<open>
  C4: while an initialization is in flight (\<^verbatim>\<open>isInitializing\<close> is set), \<^verbatim>\<open>startClient()\<close>
  returns at once: every variable, the pending timers, the number of client objects built and
  the calls made on them are as before. A call that does build a client object was made with
  no initialization in flight, builds exactly one and leaves one initialization in flight.
\<close>

theorem startClient_noop_while_initializing:
  "(isInitializing s \<longrightarrow> startClient ctor_throws s = s) \<and>
   (constructed (startClient ctor_throws s) \<noteq> constructed s \<longrightarrow>
      \<not> isInitializing s \<and> isInitializing (startClient ctor_throws s) \<and>
      clientState (startClient ctor_throws s) = Initializing \<and>
      constructed (startClient ctor_throws s) = Suc (constructed s))"
  by (simp add: startClient_def setTimeout_def Let_def cit_frame)

theorem startClient_noop_while_initializing_witness:
  "isInitializing (startClient False module_state) \<and>
   startClient False (startClient False module_state) = startClient False module_state \<and>
   constructed (startClient False module_state) \<noteq> constructed module_state \<and>
   constructed (startClient False module_state) = Suc (constructed module_state)"
proof -
  have a: "isInitializing (startClient False module_state)"
    by (simp add: eval_defs)
  have b: "constructed (startClient False module_state) \<noteq> constructed module_state"
    by (simp add: eval_defs)
  show ?thesis
    using a b startClient_noop_while_initializing [of "startClient False module_state" False]
      startClient_noop_while_initializing [of module_state False]
    by blast
qed

text \<open>
  C5 as stated fails: the handler of \<^verbatim>\<open>qr\<close> also assigns \<^verbatim>\<open>reconnectAttempts = 0\<close>. With a
  fresh QR code after every retry and no ready event at all, the sixth disconnect in a row
  finds the counter at 0, raises it to 1 and schedules another retry.
\<close>

theorem retry_after_sixth_disconnect:
  "length (filter automatic_disconnect qr_between_disconnects) = 6 \<and>
   reconnectAttempts (run qr_between_disconnects module_state) = 1 \<and>
   clientState (run qr_between_disconnects module_state) = Disconnected \<and>
   timers (run qr_between_disconnects module_state) =
     [\<lparr> timer_id = 11, timer_delay = 5000, timer_cb = RestartClient \<rparr>]"
  by (simp add: qr_between_disconnects_def eval_defs)

text \<open>
  C5, amended: \<^verbatim>\<open>reconnectAttempts\<close> never exceeds 5. A \<^verbatim>\<open>disconnected\<close> event whose reason is
  not \<^verbatim>\<open>'NAVIGATION'\<close>, with the counter below 5, adds one to the counter and schedules one
  call of \<^verbatim>\<open>startClient\<close> after 5000 ms. After five such disconnects with neither a ready nor
  a QR event among the events in between, a further disconnect leaves the state
  \<^verbatim>\<open>'disconnected'\<close>, the counter as it is and schedules nothing. Reaching ready, and receiving
  a QR code, reset the counter to 0.
\<close>

theorem reconnect_attempts_capped:
  "reconnectAttempts (run es module_state) \<le> 5 \<and>
   (reason \<noteq> ''NAVIGATION'' \<and> reconnectAttempts s < 5 \<longrightarrow>
      reconnectAttempts (on_disconnected reason s) = Suc (reconnectAttempts s) \<and>
      clientState (on_disconnected reason s) = Disconnected \<and>
      timers (on_disconnected reason s) =
        timers (clear_initialization_timeout s) @
          [\<lparr> timer_id = next_timer s, timer_delay = 5000, timer_cb = RestartClient \<rparr>]) \<and>
   (list_all keeps_counter es' \<and> 5 \<le> length (filter automatic_disconnect es') \<longrightarrow>
      clientState (on_disconnected reason' (run es' s')) = Disconnected \<and>
      reconnectAttempts (on_disconnected reason' (run es' s')) = reconnectAttempts (run es' s') \<and>
      timers (on_disconnected reason' (run es' s')) =
        timers (clear_initialization_timeout (run es' s'))) \<and>
   reconnectAttempts (on_ready (Some i) s) = 0 \<and>
   reconnectAttempts (on_qr now qr s) = 0"
proof -
  have cap: "reconnectAttempts (run es module_state) \<le> 5"
    using run_attempts_le [of module_state es]
    by (simp add: module_state_def MAX_RECONNECT_ATTEMPTS_def)
  have retry: "reason \<noteq> ''NAVIGATION'' \<and> reconnectAttempts s < 5 \<longrightarrow>
      reconnectAttempts (on_disconnected reason s) = Suc (reconnectAttempts s) \<and>
      clientState (on_disconnected reason s) = Disconnected \<and>
      timers (on_disconnected reason s) =
        timers (clear_initialization_timeout s) @
          [\<lparr> timer_id = next_timer s, timer_delay = 5000, timer_cb = RestartClient \<rparr>]"
    by (simp add: on_disconnected_def setTimeout_def Let_def cit_frame
          MAX_RECONNECT_ATTEMPTS_def)
  have stop: "clientState (on_disconnected reason' (run es' s')) = Disconnected \<and>
      reconnectAttempts (on_disconnected reason' (run es' s')) = reconnectAttempts (run es' s') \<and>
      timers (on_disconnected reason' (run es' s')) =
        timers (clear_initialization_timeout (run es' s'))"
    if "list_all keeps_counter es'" and "5 \<le> length (filter automatic_disconnect es')"
  proof -
    have "5 \<le> reconnectAttempts (run es' s')"
      using run_attempts_count [OF that(1), of s'] that(2)
      by (simp add: MAX_RECONNECT_ATTEMPTS_def min_def split: if_splits)
    then show ?thesis
      by (simp add: on_disconnected_def setTimeout_def Let_def cit_frame
            MAX_RECONNECT_ATTEMPTS_def)
  qed
  have reset: "reconnectAttempts (on_ready (Some i) s) = 0 \<and>
      reconnectAttempts (on_qr now qr s) = 0"
    by (simp add: on_ready_def on_qr_def)
  from cap retry stop reset show ?thesis by blast
qed

theorem reconnect_attempts_capped_witness:
  "reconnectAttempts (startClient False module_state) < 5 \<and>
   reconnectAttempts (on_disconnected ''CONFLICT'' (startClient False module_state)) = 1 \<and>
   list_all keeps_counter five_disconnects \<and>
   5 \<le> length (filter automatic_disconnect five_disconnects) \<and>
   clientState (on_disconnected ''CONFLICT''
      (run five_disconnects (startClient False module_state))) = Disconnected \<and>
   timers (on_disconnected ''CONFLICT''
      (run five_disconnects (startClient False module_state))) = []"
proof -
  have a: "''CONFLICT'' \<noteq> ''NAVIGATION'' \<and> reconnectAttempts (startClient False module_state) < 5"
    by (simp add: eval_defs)
  have b: "list_all keeps_counter five_disconnects \<and>
      5 \<le> length (filter automatic_disconnect five_disconnects)"
    by (simp add: five_disconnects_def)
  have c: "timers (clear_initialization_timeout
      (run five_disconnects (startClient False module_state))) = []"
    by (simp add: five_disconnects_def eval_defs)
  have d: "reconnectAttempts (startClient False module_state) = 0"
    by (simp add: eval_defs)
  show ?thesis
    using a b c d
      reconnect_attempts_capped [of "[]" "''CONFLICT''" "startClient False module_state"
        five_disconnects "''CONFLICT''" "startClient False module_state"]
    by simp
qed

text \<open>
  C6: a QR payload issued more than 60000 ms ago is not served. In every state the session
  reaches a stored payload has its time of issue stored with it. When that time \<open>t\<close> lies more
  than 60000 ms before \<open>now\<close>, \<^verbatim>\<open>GET /api/whatsapp/qr\<close> returns no QR image; in the state
  \<^verbatim>\<open>'qr'\<close> it clears payload and time in place and answers 404 \<^verbatim>\<open>'QR code expired'\<close>; and the
  sweep, which runs every 10 s without any request, clears both as well.
\<close>

theorem expired_qr_not_served:
  "(qrCodeData (run es module_state) \<noteq> None \<longrightarrow> qrGeneratedTime (run es module_state) \<noteq> None) \<and>
   (qrGeneratedTime s = Some t \<and> t \<noteq> 0 \<and> 60000 < now - t \<longrightarrow>
      \<not> serves_qr (fst (get_qr now toDataURL ctor_throws s)) \<and>
      (clientState s = Qr \<and> truthy_string (qrCodeData s) \<longrightarrow>
         get_qr now toDataURL ctor_throws s =
           ((404, BodyError ''QR code expired''),
            s\<lparr> qrCodeData := None, qrGeneratedTime := None \<rparr>)) \<and>
      (truthy_string (qrCodeData s) \<longrightarrow>
         qr_sweep now s = s\<lparr> qrCodeData := None, qrGeneratedTime := None \<rparr>))"
proof -
  have paired: "qrCodeData (run es module_state) \<noteq> None \<longrightarrow>
      qrGeneratedTime (run es module_state) \<noteq> None"
    by (rule run_qr_time) (simp add: module_state_def)
  show ?thesis
    using paired get_qr_expired [of s t now toDataURL ctor_throws]
      get_qr_lazy [of s t now toDataURL ctor_throws] sweep_expired [of s t now]
    by blast
qed

theorem expired_qr_not_served_witness:
  "qrCodeData (run [Startup False, QrEvent 1000 ''2@a''] module_state) = Some ''2@a'' \<and>
   qrGeneratedTime (run [Startup False, QrEvent 1000 ''2@a''] module_state) = Some 1000 \<and>
   fst (get_qr 61001 Some False (run [Startup False, QrEvent 1000 ''2@a''] module_state))
     = (404, BodyError ''QR code expired'') \<and>
   qrCodeData (snd (get_qr 61001 Some False
      (run [Startup False, QrEvent 1000 ''2@a''] module_state))) = None \<and>
   qrCodeData (qr_sweep 61001 (run [Startup False, QrEvent 1000 ''2@a''] module_state)) = None \<and>
   fst (get_qr 61000 Some False (run [Startup False, QrEvent 1000 ''2@a''] module_state))
     = (200, BodyQr ''2@a'')"
proof -
  let ?s = "run [Startup False, QrEvent 1000 ''2@a''] module_state"
  have q: "qrCodeData ?s = Some ''2@a''" and t: "qrGeneratedTime ?s = Some 1000"
    and st: "clientState ?s = Qr"
    by (simp_all add: eval_defs)
  have h: "qrGeneratedTime ?s = Some 1000 \<and> (1000::int) \<noteq> 0 \<and> (60000::int) < 61001 - 1000"
    using t by simp
  have tr: "truthy_string (qrCodeData ?s)"
    using q by (simp add: truthy_string_def)
  have fresh: "fst (get_qr 61000 Some False ?s) = (200, BodyQr ''2@a'')"
    using q t st by (simp add: get_qr_def truthy_string_def qr_expired_def QR_TIMEOUT_def)
  have ne: "qrCodeData ?s \<noteq> None" using q by simp
  from expired_qr_not_served [of "[Startup False, QrEvent 1000 ''2@a'']" ?s 1000 61001 Some False]
    h tr st ne q t fresh
  show ?thesis by simp
qed

text \<open>
  C9, at the input where the code departs from it: the watchdog fires on a session that is
  still initializing, and the promise that \<^verbatim>\<open>client.destroy()\<close> returns is rejected. The
  state becomes \<^verbatim>\<open>'error'\<close> and one call of \<^verbatim>\<open>startClient\<close> is scheduled after 5000 ms, as
  the claim says, but the rejection is not swallowed: the call is not awaited, so the
  \<^verbatim>\<open>catch\<close> around it never sees it. An exception thrown by the call itself is caught, and
  \<^verbatim>\<open>POST /api/whatsapp/qr\<close>, which awaits the same call inside its \<^verbatim>\<open>try\<close>, swallows the
  rejection too.
\<close>

theorem watchdog_teardown_rejection_unhandled:
  "clientState (run [Startup False] module_state) = Initializing \<and>
   clientState (run [Startup False, TimerFires 0 False Rejects] module_state) = Error \<and>
   timers (run [Startup False, TimerFires 0 False Rejects] module_state)
     = [\<lparr> timer_id = 1, timer_delay = 5000, timer_cb = RestartClient \<rparr>] \<and>
   client_ops (run [Startup False, TimerFires 0 False Rejects] module_state)
     = [NewClient 0, ClientInitialize 0, ClientDestroy 0] \<and>
   unhandled_rejections (run [Startup False, TimerFires 0 False Rejects] module_state) = 1 \<and>
   unhandled_rejections (run [Startup False, TimerFires 0 False Throws] module_state) = 0 \<and>
   unhandled_rejections (run [Startup False, PostQr Returns Rejects False False] module_state) = 0"
  by (simp add: eval_defs Let_def)

text \<open>
  The parts of C9 that the callback does keep, for every session and every outcome of the
  teardown: in the state \<^verbatim>\<open>'initializing'\<close> it clears \<^verbatim>\<open>isInitializing\<close>, sets the state to
  \<^verbatim>\<open>'error'\<close>, calls \<^verbatim>\<open>destroy\<close> on the client object if there is one and schedules exactly
  one call of \<^verbatim>\<open>startClient\<close> after 5000 ms, \<^verbatim>\<open>reconnectAttempts\<close> being neither read nor
  changed; in any other state it does nothing. A rejected teardown is the one outcome that
  leaves a trace beyond that.
\<close>

lemma watchdog_callback_effect:
  "(clientState s = Initializing \<longrightarrow>
      initialization_timeout_fired destroy_outcome s =
        s\<lparr> isInitializing := False, clientState := Error,
           client_ops := client_ops s @
             (case client s of None \<Rightarrow> [] | Some c \<Rightarrow> [ClientDestroy c]),
           timers := timers s @
             [\<lparr> timer_id = next_timer s, timer_delay = 5000, timer_cb = RestartClient \<rparr>],
           next_timer := Suc (next_timer s),
           unhandled_rejections :=
             (if client s \<noteq> None \<and> destroy_outcome = Rejects
              then Suc (unhandled_rejections s) else unhandled_rejections s) \<rparr>) \<and>
   (clientState s \<noteq> Initializing \<longrightarrow> initialization_timeout_fired destroy_outcome s = s)"
  by (auto simp: initialization_timeout_fired_def try_destroy_def setTimeout_def Let_def
        split: option.splits call_outcome.splits)

section \<open>The claims about the dispatchers\<close>

text \<open>
  C7: with a batch size of at least 1, \<^verbatim>\<open>sendEmailsInBatches\<close> returns; what it did is the
  contiguous batches of \<open>batchSize\<close> recipients in order (the last one shorter when the
  length is no multiple), with one wait of \<open>delayMs\<close> between two neighbours and none after
  the last. 45 recipients and a batch size of 20 give batches of 20, 20 and 5 and two waits;
  no recipients give no outcome, no batch and no wait; a non-empty list no longer than the
  batch size gives that list as the only batch and no wait.
\<close>

theorem batches_with_delays_between:
  "(1 \<le> batchSize \<longrightarrow>
      sendEmailsInBatches sendMail user subject body emails batchSize delayMs w =
        Some (fst (sendEmails sendMail user subject body emails w),
              delays_between delayMs (contiguous_batches batchSize emails),
              snd (sendEmails sendMail user subject body emails w)) \<and>
      concat (contiguous_batches batchSize emails) = emails \<and>
      map length (contiguous_batches batchSize emails) =
        replicate (length emails div batchSize) batchSize @
          (if length emails mod batchSize = 0 then [] else [length emails mod batchSize])) \<and>
   (length emails = 45 \<longrightarrow>
      (case sendEmailsInBatches sendMail user subject body emails 20 delayMs w of
         None \<Rightarrow> False
       | Some (results, log, w') \<Rightarrow>
           map length (batches_of_log log) = [20, 20, 5] \<and>
           waits_of_log log = [delayMs, delayMs])) \<and>
   sendEmailsInBatches sendMail user subject body [] batchSize delayMs w = Some ([], [], w) \<and>
   (emails \<noteq> [] \<and> length emails \<le> batchSize \<longrightarrow>
      sendEmailsInBatches sendMail user subject body emails batchSize delayMs w =
        Some (fst (sendEmails sendMail user subject body emails w), [BatchSent emails],
              snd (sendEmails sendMail user subject body emails w)))"
proof -
  have general: "sendEmailsInBatches sendMail user subject body emails n delayMs w =
        Some (fst (sendEmails sendMail user subject body emails w),
              delays_between delayMs (contiguous_batches n emails),
              snd (sendEmails sendMail user subject body emails w))" if "1 \<le> n" for n
    using loop_result [OF that, of sendMail user subject body emails delayMs 0 "[]" "[]" w]
    by (simp add: sendEmailsInBatches_def)
  have partition: "1 \<le> batchSize \<longrightarrow>
      concat (contiguous_batches batchSize emails) = emails \<and>
      map length (contiguous_batches batchSize emails) =
        replicate (length emails div batchSize) batchSize @
          (if length emails mod batchSize = 0 then [] else [length emails mod batchSize])"
    using concat_contiguous_batches [of batchSize emails]
      contiguous_batches_sizes [of batchSize emails] by blast
  have forty_five: "length emails = 45 \<longrightarrow>
      (case sendEmailsInBatches sendMail user subject body emails 20 delayMs w of
         None \<Rightarrow> False
       | Some (results, log, w') \<Rightarrow>
           map length (batches_of_log log) = [20, 20, 5] \<and>
           waits_of_log log = [delayMs, delayMs])"
  proof
    assume len: "length emails = 45"
    have "length (contiguous_batches 20 emails) = 3"
      using arg_cong [OF contiguous_batches_45 [OF len], of length] by simp
    then show "case sendEmailsInBatches sendMail user subject body emails 20 delayMs w of
         None \<Rightarrow> False
       | Some (results, log, w') \<Rightarrow>
           map length (batches_of_log log) = [20, 20, 5] \<and>
           waits_of_log log = [delayMs, delayMs]"
      using general [of 20] contiguous_batches_45 [OF len]
      by (simp add: batches_of_delays waits_of_delays numeral_2_eq_2)
  qed
  have empty: "sendEmailsInBatches sendMail user subject body [] batchSize delayMs w
      = Some ([], [], w)"
    by (simp add: sendEmailsInBatches_def sendEmailsInBatches_loop.simps)
  have single: "emails \<noteq> [] \<and> length emails \<le> batchSize \<longrightarrow>
      sendEmailsInBatches sendMail user subject body emails batchSize delayMs w =
        Some (fst (sendEmails sendMail user subject body emails w), [BatchSent emails],
              snd (sendEmails sendMail user subject body emails w))"
  proof
    assume a: "emails \<noteq> [] \<and> length emails \<le> batchSize"
    then have pos: "1 \<le> batchSize"
      by (cases emails) auto
    have "contiguous_batches batchSize emails = [emails]"
      using a pos
      by (subst contiguous_batches.simps) (simp add: contiguous_batches_Nil)
    with general [OF pos] show "sendEmailsInBatches sendMail user subject body emails batchSize delayMs w =
        Some (fst (sendEmails sendMail user subject body emails w), [BatchSent emails],
              snd (sendEmails sendMail user subject body emails w))"
      by simp
  qed
  from general [of batchSize] partition forty_five empty single show ?thesis
    by blast
qed

theorem batches_with_delays_between_witness:
  "(1::nat) \<le> 50 \<and> length (replicate 45 (recipient ''a@x.org'')) = 45 \<and>
   replicate 45 (recipient ''a@x.org'') \<noteq> [] \<and>
   length (replicate 45 (recipient ''a@x.org'')) \<le> 50 \<and>
   fst (snd (the (sendEmailsInBatches (rejecting_transport ''b@x.org'') ''me@x.org'' ''Hi'' ''<p>Hi</p>''
     (replicate 45 (recipient ''a@x.org'')) 50 30000 0)))
     = [BatchSent (replicate 45 (recipient ''a@x.org''))] \<and>
   (case sendEmailsInBatches (rejecting_transport ''b@x.org'') ''me@x.org'' ''Hi'' ''<p>Hi</p>''
           (replicate 45 (recipient ''a@x.org'')) 20 30000 0 of
      None \<Rightarrow> False
    | Some (results, log, w') \<Rightarrow>
        map length (batches_of_log log) = [20, 20, 5] \<and> waits_of_log log = [30000, 30000])"
proof -
  have h: "(1::nat) \<le> 50" "length (replicate 45 (recipient ''a@x.org'')) = 45"
    "replicate 45 (recipient ''a@x.org'') \<noteq> [] \<and>
     length (replicate 45 (recipient ''a@x.org'')) \<le> 50"
    by simp_all
  note inst = batches_with_delays_between [of 50 "rejecting_transport ''b@x.org''" "''me@x.org''"
      "''Hi''" "''<p>Hi</p>''" "replicate 45 (recipient ''a@x.org'')" 30000 0]
  have single: "sendEmailsInBatches (rejecting_transport ''b@x.org'') ''me@x.org'' ''Hi''
      ''<p>Hi</p>'' (replicate 45 (recipient ''a@x.org'')) 50 30000 0 =
        Some (fst (sendEmails (rejecting_transport ''b@x.org'') ''me@x.org'' ''Hi'' ''<p>Hi</p>''
                (replicate 45 (recipient ''a@x.org'')) 0),
              [BatchSent (replicate 45 (recipient ''a@x.org''))],
              snd (sendEmails (rejecting_transport ''b@x.org'') ''me@x.org'' ''Hi'' ''<p>Hi</p>''
                (replicate 45 (recipient ''a@x.org'')) 0))"
    using inst h by blast
  have three: "case sendEmailsInBatches (rejecting_transport ''b@x.org'') ''me@x.org'' ''Hi''
           ''<p>Hi</p>'' (replicate 45 (recipient ''a@x.org'')) 20 30000 0 of
      None \<Rightarrow> False
    | Some (results, log, w') \<Rightarrow>
        map length (batches_of_log log) = [20, 20, 5] \<and> waits_of_log log = [30000, 30000]"
    using inst h by blast
  show ?thesis
    using three by (simp add: single)
qed



text \<open>
  C10, at the input where the code departs from it: the phone of a contact is the JSON number
  9876543210, which is not a string. \<^verbatim>\<open>test\<close> converts it to the string of its ten digits,
  so the check accepts it; inside the \<^verbatim>\<open>try\<close>, \<^verbatim>\<open>contact.phone.startsWith\<close> is not a
  function, and the \<^verbatim>\<open>catch\<close> records the contact as failed with that error's message and
  not with \<^verbatim>\<open>'Invalid phone number format'\<close>; nothing is sent, and the 10 s pause is taken.
  The same digits as a string are accepted and sent to \<^verbatim>\<open>919876543210@c.us\<close>, a phone that
  starts with 91 is sent to as it is, and a string of nine digits is refused with
  \<^verbatim>\<open>'Invalid phone number format'\<close>, with no call and no pause.
\<close>

theorem numeric_phone_passes_check:
  "send_contacts_loop accepting_messenger (ascii ''hello'')
       [\<lparr> name = Some ''Asha'', phone = JInteger 9876543210 \<rparr>] [] [] 0
     = ([NotSent \<lparr> name = Some ''Asha'', phone = JInteger 9876543210 \<rparr>
           ''contact.phone.startsWith is not a function''],
        [Delay 10000], 0) \<and>
   send_contacts_loop accepting_messenger (ascii ''hello'')
       [\<lparr> name = Some ''Asha'', phone = JString ''9876543210'' \<rparr>,
        \<lparr> name = Some ''Ravi'', phone = JString ''919876543210'' \<rparr>,
        \<lparr> name = Some ''Mina'', phone = JString ''987654321'' \<rparr>] [] [] 0
     = ([Sent \<lparr> name = Some ''Asha'', phone = JString ''9876543210'' \<rparr>,
         Sent \<lparr> name = Some ''Ravi'', phone = JString ''919876543210'' \<rparr>,
         NotSent \<lparr> name = Some ''Mina'', phone = JString ''987654321'' \<rparr>
           ''Invalid phone number format''],
        [SendMessage ''919876543210@c.us'' (ascii ''hello''), Delay 10000,
         SendMessage ''919876543210@c.us'' (ascii ''hello''), Delay 10000], 2)"
  by (simp add: accepting_messenger_def invalid_phone_def digits_10_15_def is_digit_def
        chat_id_def startsWith_def startsWith_missing_def)

end
